theory Spec2Isabelle
  imports Main
begin

section \<open>Data model\<close>

text \<open>
  Errors are values.  The first six kinds are the ones the specification lists; the
  request-construction conflict of cursor mode with a sample count has no name in the
  specification and gets a constructor of its own; \<open>KeyError\<close> and \<open>TypeError\<close> are the
  Python exceptions raised by the subscript expressions of \<open>registration_agency\<close> and
  \<open>random_dois\<close>.
\<close>

datatype error =
    UnknownFilterError string
  | FilterValueError
  | UnknownParameterError string
  | TransportError
  | HttpStatusError nat
  | DecodeError
  | CursorSampleConflict
  | KeyError string
  | TypeError

text \<open>A parameter value as Python passes it: a string, a number or a boolean.\<close>

datatype pval = Str string | Num int | Bool bool

type_synonym kwargs = "(string \<times> pval) list"

text \<open>
  One item of a page is a JSON object; only its string-valued keys matter here
  (\<open>z['DOI']\<close>).  A page is one decoded response body: the item list of
  \<open>message.items\<close>, \<open>message.total-results\<close>, \<open>message.next-cursor\<close> and, for an agency
  lookup, \<open>message.agency.label\<close>.
\<close>

type_synonym item = "(string \<times> string) list"

record page =
  items :: "item list"
  total_results :: nat
  next_cursor :: "string option"
  agency_label :: "string option"

text \<open>
  One HTTP GET as the Request Dispatcher receives it: base URL, resource path, the
  optional identifier segment, the sub-resource flags, the encoded query parameters and
  the transport pass-through options.
\<close>

record http_request =
  h_base :: string
  h_path :: string
  h_id :: "string option"
  h_works :: bool
  h_agency :: bool
  h_params :: "(string \<times> pval) list"
  h_transport :: kwargs

text \<open>
  The network is a state-passing function of an arbitrary server state; the world also
  keeps the log of the requests issued so far, so that Dispatcher calls can be counted.
\<close>

type_synonym 's dispatcher = "http_request \<Rightarrow> 's \<Rightarrow> (error + page) \<times> 's"

record 's world =
  srv :: 's
  sent :: "http_request list"

text \<open>
  Modelled from the spec: the Request Dispatcher (module \<open>request\<close> of the package is
  not among the sources).  Section 4.3: exactly one network call, the decoded body or
  the failure.
\<close>

definition fetch :: "'s dispatcher \<Rightarrow> http_request \<Rightarrow> 's world \<Rightarrow> (error + page) \<times> 's world" where
  "fetch d rq w = (case d rq (srv w) of (r, s') \<Rightarrow> (r, \<lparr>srv = s', sent = sent w @ [rq]\<rparr>))"

section \<open>Cursor Pager\<close>

definition count_items :: "page \<Rightarrow> int" where
  "count_items p = int (length (items p))"

text \<open>
  Modelled from the spec: the Cursor Pager (class \<open>Request\<close> of module \<open>request_class\<close>
  is not among the sources).  Section 4.4, state FETCHING, transition by transition:
  \<open>mk cur\<close> is the request encoded with the current cursor value, \<open>fetched\<close> is
  \<open>fetched_count\<close>, \<open>pages\<close> the pages accumulated so far.
\<close>

function fetching ::
  "'s dispatcher \<Rightarrow> (string \<Rightarrow> http_request) \<Rightarrow> int \<Rightarrow> string \<Rightarrow> int \<Rightarrow> page list \<Rightarrow> 's world
     \<Rightarrow> (error + page list) \<times> 's world" where
  "fetching d mk cap cur fetched pages w =
     (case fetch d (mk cur) w of
        (Inl e, w') \<Rightarrow> (Inl e, w')
      | (Inr p, w') \<Rightarrow>
          if count_items p = 0 then (Inr pages, w')
          else if fetched + count_items p \<ge> cap then (Inr (pages @ [p]), w')
          else (case next_cursor p of
                  None \<Rightarrow> (Inr (pages @ [p]), w')
                | Some nx \<Rightarrow>
                    if nx = cur then (Inr (pages @ [p]), w')
                    else fetching d mk cap nx (fetched + count_items p) (pages @ [p]) w'))"
  by pat_completeness auto

termination
proof (relation "measure (\<lambda>(d, mk, cap, cur, fetched, pages, w). nat (cap - fetched))")
  show "wf (measure (\<lambda>(d, mk, cap, cur, fetched, pages, w). nat (cap - fetched)))"
    by simp
next
  fix d :: "'s dispatcher" and mk cap cur fetched pages and w :: "'s world"
    and x w' p nx
  assume "count_items p \<noteq> 0" and "\<not> cap \<le> fetched + count_items p"
  moreover have "0 \<le> count_items p" by (simp add: count_items_def)
  ultimately show "((d, mk, cap, nx, fetched + count_items p, pages @ [p], w'),
                    (d, mk, cap, cur, fetched, pages, w))
                   \<in> measure (\<lambda>(d, mk, cap, cur, fetched, pages, w). nat (cap - fetched))"
    by simp
qed

declare fetching.simps [simp del]

text \<open>State START: \<open>fetched_count = 0\<close>, \<open>pages = []\<close>, then FETCHING.\<close>

definition cursor_pager ::
  "'s dispatcher \<Rightarrow> (string \<Rightarrow> http_request) \<Rightarrow> int \<Rightarrow> string \<Rightarrow> 's world
     \<Rightarrow> (error + page list) \<times> 's world" where
  "cursor_pager d mk cap cur w = fetching d mk cap cur 0 [] w"

section \<open>Multi-ID Fan-out\<close>

text \<open>
  The result shapes of section 3: one identifier's result is a single page or a page
  sequence; a call returns one such result bare, or the list of them.
\<close>

datatype body = One page | Paged "page list"

datatype 'r shape = Bare 'r | Listed "'r list"

text \<open>
  Modelled from the spec: the Multi-ID Fan-out (part of module \<open>request\<close>, not among the
  sources).  Section 4.5: at most one identifier, one invocation and the bare result;
  otherwise one invocation per identifier, in order, stopping at the first failure and
  discarding what was gathered.
\<close>

fun gather :: "('i \<Rightarrow> 'w \<Rightarrow> (error + 'r) \<times> 'w) \<Rightarrow> 'i list \<Rightarrow> 'r list \<Rightarrow> 'w \<Rightarrow> (error + 'r list) \<times> 'w" where
  "gather f [] acc w = (Inr acc, w)"
| "gather f (i # rest) acc w =
     (case f i w of
        (Inl e, w') \<Rightarrow> (Inl e, w')
      | (Inr r, w') \<Rightarrow> gather f rest (acc @ [r]) w')"

definition fan_out ::
  "string list \<Rightarrow> (string option \<Rightarrow> 'w \<Rightarrow> (error + 'r) \<times> 'w) \<Rightarrow> 'w \<Rightarrow> (error + 'r shape) \<times> 'w" where
  "fan_out ids per_id_call w =
     (if length ids \<le> 1 then
        (case per_id_call (case ids of [] \<Rightarrow> None | i # _ \<Rightarrow> Some i) w of
           (Inl e, w') \<Rightarrow> (Inl e, w')
         | (Inr r, w') \<Rightarrow> (Inr (Bare r), w'))
      else
        (case gather (\<lambda>i. per_id_call (Some i)) ids [] w of
           (Inl e, w') \<Rightarrow> (Inl e, w')
         | (Inr rs, w') \<Rightarrow> (Inr (Listed rs), w')))"

section \<open>Parameter Encoder and request flow\<close>

text \<open>
  The arguments of \<open>request(url, path, ids, query, filter, offset, limit, sample, sort,
  order, facet, works, cursor, cursor_max, agency, **kwargs)\<close>, in the positional order
  the call sites of \<open>crossref.py\<close> use.  An argument a call site does not pass is \<open>None\<close>.
\<close>

record request_args =
  r_url :: string
  r_path :: string
  r_ids :: "string list option"
  r_query :: "string option"
  r_filter :: "kwargs option"
  r_offset :: "int option"
  r_limit :: "int option"
  r_sample :: "int option"
  r_sort :: "string option"
  r_order :: "string option"
  r_facet :: "bool option"
  r_works :: "bool option"
  r_cursor :: "string option"
  r_cursor_max :: "int option"
  r_agency :: "bool option"
  r_kwargs :: kwargs

text \<open>
  The constructor arguments of \<open>Request(url, path, query, filter, offset, limit, sample,
  sort, order, facet, cursor, cursor_max, **kwargs)\<close>.
\<close>

record Request =
  R_url :: string
  R_path :: string
  R_query :: "string option"
  R_filter :: "kwargs option"
  R_offset :: "int option"
  R_limit :: "int option"
  R_sample :: "int option"
  R_sort :: "string option"
  R_order :: "string option"
  R_facet :: "bool option"
  R_cursor :: "string option"
  R_cursor_max :: "int option"
  R_kwargs :: kwargs

text \<open>
  What the flow depends on and the sources do not contain: the set of transport
  pass-through keys, the Filter Registry's validation and rendering of a filter mapping
  into the single \<open>filter=\<close> value, and the network.
\<close>

record 's env =
  transport_keys :: "string list"
  filter_handler :: "kwargs \<Rightarrow> error + string"
  dispatch :: "'s dispatcher"

definition is_field_query :: "string \<Rightarrow> bool" where
  "is_field_query n = (take 6 n = ''query_'')"

definition field_params :: "kwargs \<Rightarrow> (string \<times> pval) list" where
  "field_params kw =
     map (\<lambda>(n, v). (''query.'' @ drop 6 n, v)) (filter (\<lambda>(n, v). is_field_query n) kw)"

fun check_names :: "string list \<Rightarrow> kwargs \<Rightarrow> error + unit" where
  "check_names tk [] = Inr ()"
| "check_names tk ((n, v) # kw) =
     (if is_field_query n \<or> n \<in> set tk then check_names tk kw
      else Inl (UnknownParameterError n))"

definition opt :: "string \<Rightarrow> ('a \<Rightarrow> pval) \<Rightarrow> 'a option \<Rightarrow> (string \<times> pval) list" where
  "opt name f x = (case x of None \<Rightarrow> [] | Some v \<Rightarrow> [(name, f v)])"

text \<open>
  Modelled from the spec: the Parameter Encoder (part of module \<open>request\<close>, not among the
  sources).  Section 4.2, in the precedence of its rules: dynamic names (rule 3), the
  filter (rule 4), the fixed parameters (rule 5, with the conflict of cursor mode and
  \<open>sample\<close> of section 3).  The cursor token itself is appended per request by
  \<open>with_cursor\<close>, since the pager encodes it anew for every page.
\<close>

definition encode ::
  "string list \<Rightarrow> (kwargs \<Rightarrow> error + string) \<Rightarrow> request_args \<Rightarrow> error + (string \<times> pval) list" where
  "encode tk fh a =
     (case check_names tk (r_kwargs a) of
        Inl e \<Rightarrow> Inl e
      | Inr _ \<Rightarrow>
          (case (case r_filter a of
                   None \<Rightarrow> Inr []
                 | Some f \<Rightarrow> (case fh f of Inl e \<Rightarrow> Inl e | Inr s \<Rightarrow> Inr [(''filter'', Str s)])) of
             Inl e \<Rightarrow> Inl e
           | Inr fp \<Rightarrow>
               if r_cursor a \<noteq> None \<and> r_sample a \<noteq> None then Inl CursorSampleConflict
               else Inr (opt ''query'' Str (r_query a) @ field_params (r_kwargs a) @ fp
                         @ opt ''offset'' Num (r_offset a) @ opt ''rows'' Num (r_limit a)
                         @ opt ''sample'' Num (r_sample a) @ opt ''sort'' Str (r_sort a)
                         @ opt ''order'' Str (r_order a) @ opt ''facet'' Bool (r_facet a))))"

definition with_cursor :: "http_request \<Rightarrow> string \<Rightarrow> http_request" where
  "with_cursor rq c = rq\<lparr>h_params := h_params rq @ [(''cursor'', Str c)]\<rparr>"

definition base_request :: "string list \<Rightarrow> request_args \<Rightarrow> (string \<times> pval) list \<Rightarrow> string option \<Rightarrow> http_request" where
  "base_request tk a ps i =
     \<lparr>h_base = r_url a, h_path = r_path a, h_id = i,
      h_works = (r_works a = Some True), h_agency = (r_agency a = Some True),
      h_params = ps,
      h_transport = filter (\<lambda>(n, v). n \<in> set tk) (r_kwargs a)\<rparr>"

text \<open>
  Modelled from the spec: the flow for one identifier (section 2, control flow): the
  Cursor Pager when a cursor is requested, else one Dispatcher call.  No operation of
  \<open>crossref.py\<close> passes a cursor without a cap; the flow refuses that call.
\<close>

definition per_id :: "'s env \<Rightarrow> request_args \<Rightarrow> (string \<times> pval) list \<Rightarrow> string option \<Rightarrow> 's world
    \<Rightarrow> (error + body) \<times> 's world" where
  "per_id env a ps i w =
     (case r_cursor a of
        None \<Rightarrow>
          (case fetch (dispatch env) (base_request (transport_keys env) a ps i) w of
             (Inl e, w') \<Rightarrow> (Inl e, w')
           | (Inr p, w') \<Rightarrow> (Inr (One p), w'))
      | Some c \<Rightarrow>
          (case r_cursor_max a of
             None \<Rightarrow> (Inl TypeError, w)
           | Some cap \<Rightarrow>
               (case cursor_pager (dispatch env)
                       (with_cursor (base_request (transport_keys env) a ps i)) cap c w of
                  (Inl e, w') \<Rightarrow> (Inl e, w')
                | (Inr pages, w') \<Rightarrow> (Inr (Paged pages), w'))))"

text \<open>
  Modelled from the spec: function \<open>request\<close> (module \<open>request\<close>, not among the sources):
  encode, then fan out over the identifiers.
\<close>

definition request :: "'s env \<Rightarrow> request_args \<Rightarrow> 's world \<Rightarrow> (error + body shape) \<times> 's world" where
  "request env a w =
     (case encode (transport_keys env) (filter_handler env) a of
        Inl e \<Rightarrow> (Inl e, w)
      | Inr ps \<Rightarrow> fan_out (case r_ids a of None \<Rightarrow> [] | Some l \<Rightarrow> l) (per_id env a ps) w)"

definition as_args :: "Request \<Rightarrow> request_args" where
  "as_args R =
     \<lparr>r_url = R_url R, r_path = R_path R, r_ids = None, r_query = R_query R,
      r_filter = R_filter R, r_offset = R_offset R, r_limit = R_limit R,
      r_sample = R_sample R, r_sort = R_sort R, r_order = R_order R, r_facet = R_facet R,
      r_works = None, r_cursor = R_cursor R, r_cursor_max = R_cursor_max R,
      r_agency = None, r_kwargs = R_kwargs R\<rparr>"

text \<open>
  Modelled from the spec: method \<open>Request.do_request\<close> (module \<open>request_class\<close>, not
  among the sources): the same flow without identifiers.
\<close>

definition do_request :: "'s env \<Rightarrow> Request \<Rightarrow> 's world \<Rightarrow> (error + body) \<times> 's world" where
  "do_request env R w =
     (case encode (transport_keys env) (filter_handler env) (as_args R) of
        Inl e \<Rightarrow> (Inl e, w)
      | Inr ps \<Rightarrow> per_id env (as_args R) ps None w)"

text \<open>
  Modelled from the spec: \<open>check_kwargs\<close> (module \<open>habanero_utils\<close>, not among the
  sources): the first of the given names that the caller supplied is rejected with
  \<open>UnknownParameterError\<close> (section 4.2, rule 3; section 7).
\<close>

fun check_kwargs :: "string list \<Rightarrow> kwargs \<Rightarrow> error + unit" where
  "check_kwargs [] kw = Inr ()"
| "check_kwargs (k # ks) kw =
     (if k \<in> fst ` set kw then Inl (UnknownParameterError k) else check_kwargs ks kw)"

section \<open>The client: \<open>crossref.py\<close>\<close>

text \<open>Class \<open>Crossref\<close>: \<open>__init__\<close> stores the base URL and the API key.\<close>

record Crossref =
  base_url :: string
  api_key :: "string option"

definition init :: "string option \<Rightarrow> string option \<Rightarrow> Crossref" where
  "init url key =
     \<lparr>base_url = (case url of None \<Rightarrow> ''http://api.crossref.org'' | Some u \<Rightarrow> u),
      api_key = key\<rparr>"

text \<open>
  The named parameters a caller may supply to the resource operations; \<open>None\<close> is a
  parameter left out.  Each operation reads only the parameters of its own signature:
  \<open>prefixes\<close> has no \<open>query\<close>, \<open>works\<close> has no \<open>works\<close> flag, \<open>licenses\<close> has neither
  \<open>ids\<close>, \<open>filter\<close>, \<open>works\<close>, \<open>cursor\<close> nor \<open>cursor_max\<close>.  A name outside the
  signature arrives in \<open>p_kwargs\<close>, as Python's \<open>**kwargs\<close> does.
\<close>

record params =
  p_ids :: "string list option"
  p_query :: "string option"
  p_filter :: "kwargs option"
  p_offset :: "int option"
  p_limit :: "int option"
  p_sample :: "int option"
  p_sort :: "string option"
  p_order :: "string option"
  p_facet :: "bool option"
  p_works :: "bool option"
  p_cursor :: "string option"
  p_cursor_max :: "int option"
  p_kwargs :: kwargs

text \<open>The defaults of the signatures: \<open>cursor_max = 5000\<close>, \<open>works = False\<close>.\<close>

definition cursor_max_of :: "params \<Rightarrow> int" where
  "cursor_max_of p = (case p_cursor_max p of None \<Rightarrow> 5000 | Some m \<Rightarrow> m)"

definition works_of :: "params \<Rightarrow> bool" where
  "works_of p = (case p_works p of None \<Rightarrow> False | Some b \<Rightarrow> b)"

text \<open>
  A resource operation ends in \<open>return request(...)\<close> or
  \<open>return Request(...).do_request()\<close>: its result is the callee's, so the operation is
  modelled by the call it makes.
\<close>

datatype call = Via_request request_args | Via_Request Request

definition works :: "Crossref \<Rightarrow> params \<Rightarrow> call" where
  "works self p =
     (if p_ids p \<noteq> None then
        Via_request
          \<lparr>r_url = base_url self, r_path = ''/works/'', r_ids = p_ids p, r_query = p_query p,
           r_filter = p_filter p, r_offset = p_offset p, r_limit = p_limit p, r_sample = p_sample p,
           r_sort = p_sort p, r_order = p_order p, r_facet = p_facet p, r_works = None,
           r_cursor = None, r_cursor_max = None, r_agency = None,
           r_kwargs = p_kwargs p\<rparr>
      else
        Via_Request
          \<lparr>R_url = base_url self, R_path = ''/works/'', R_query = p_query p,
           R_filter = p_filter p, R_offset = p_offset p, R_limit = p_limit p,
           R_sample = p_sample p, R_sort = p_sort p, R_order = p_order p,
           R_facet = p_facet p, R_cursor = p_cursor p,
           R_cursor_max = Some (cursor_max_of p), R_kwargs = p_kwargs p\<rparr>)"

definition members :: "Crossref \<Rightarrow> params \<Rightarrow> call" where
  "members self p =
     Via_request
      \<lparr>r_url = base_url self, r_path = ''/members/'', r_ids = p_ids p, r_query = p_query p,
       r_filter = p_filter p, r_offset = p_offset p, r_limit = p_limit p, r_sample = p_sample p,
       r_sort = p_sort p, r_order = p_order p, r_facet = p_facet p, r_works = Some (works_of p),
       r_cursor = p_cursor p, r_cursor_max = Some (cursor_max_of p), r_agency = None,
       r_kwargs = p_kwargs p\<rparr>"

definition prefixes :: "Crossref \<Rightarrow> params \<Rightarrow> error + call" where
  "prefixes self p =
     (case check_kwargs [''query''] (p_kwargs p) of
        Inl e \<Rightarrow> Inl e
      | Inr _ \<Rightarrow> Inr (Via_request
      \<lparr>r_url = base_url self, r_path = ''/prefixes/'', r_ids = p_ids p, r_query = None,
       r_filter = p_filter p, r_offset = p_offset p, r_limit = p_limit p, r_sample = p_sample p,
       r_sort = p_sort p, r_order = p_order p, r_facet = p_facet p, r_works = Some (works_of p),
       r_cursor = p_cursor p, r_cursor_max = Some (cursor_max_of p), r_agency = None,
       r_kwargs = p_kwargs p\<rparr>))"

definition funders :: "Crossref \<Rightarrow> params \<Rightarrow> call" where
  "funders self p =
     Via_request
      \<lparr>r_url = base_url self, r_path = ''/funders/'', r_ids = p_ids p, r_query = p_query p,
       r_filter = p_filter p, r_offset = p_offset p, r_limit = p_limit p, r_sample = p_sample p,
       r_sort = p_sort p, r_order = p_order p, r_facet = p_facet p, r_works = Some (works_of p),
       r_cursor = p_cursor p, r_cursor_max = Some (cursor_max_of p), r_agency = None,
       r_kwargs = p_kwargs p\<rparr>"

definition journals :: "Crossref \<Rightarrow> params \<Rightarrow> call" where
  "journals self p =
     Via_request
      \<lparr>r_url = base_url self, r_path = ''/journals/'', r_ids = p_ids p, r_query = p_query p,
       r_filter = p_filter p, r_offset = p_offset p, r_limit = p_limit p, r_sample = p_sample p,
       r_sort = p_sort p, r_order = p_order p, r_facet = p_facet p, r_works = Some (works_of p),
       r_cursor = p_cursor p, r_cursor_max = Some (cursor_max_of p), r_agency = None,
       r_kwargs = p_kwargs p\<rparr>"

definition types :: "Crossref \<Rightarrow> params \<Rightarrow> call" where
  "types self p =
     Via_request
      \<lparr>r_url = base_url self, r_path = ''/types/'', r_ids = p_ids p, r_query = p_query p,
       r_filter = p_filter p, r_offset = p_offset p, r_limit = p_limit p, r_sample = p_sample p,
       r_sort = p_sort p, r_order = p_order p, r_facet = p_facet p, r_works = Some (works_of p),
       r_cursor = p_cursor p, r_cursor_max = Some (cursor_max_of p), r_agency = None,
       r_kwargs = p_kwargs p\<rparr>"

definition licenses :: "Crossref \<Rightarrow> params \<Rightarrow> error + call" where
  "licenses self p =
     (case check_kwargs [''ids'', ''filter'', ''works''] (p_kwargs p) of
        Inl e \<Rightarrow> Inl e
      | Inr _ \<Rightarrow> Inr (Via_request
      \<lparr>r_url = base_url self, r_path = ''/licenses/'', r_ids = None, r_query = p_query p,
       r_filter = None, r_offset = p_offset p, r_limit = p_limit p, r_sample = None,
       r_sort = p_sort p, r_order = p_order p, r_facet = p_facet p, r_works = None,
       r_cursor = None, r_cursor_max = None, r_agency = None,
       r_kwargs = p_kwargs p\<rparr>))"

text \<open>Running the call an operation makes, or surfacing its validation failure.\<close>

definition perform :: "'s env \<Rightarrow> call \<Rightarrow> 's world \<Rightarrow> (error + body shape) \<times> 's world" where
  "perform env c w =
     (case c of
        Via_request a \<Rightarrow> request env a w
      | Via_Request R \<Rightarrow>
          (case do_request env R w of
             (Inl e, w') \<Rightarrow> (Inl e, w')
           | (Inr b, w') \<Rightarrow> (Inr (Bare b), w')))"

definition perform_checked :: "'s env \<Rightarrow> error + call \<Rightarrow> 's world \<Rightarrow> (error + body shape) \<times> 's world" where
  "perform_checked env c w = (case c of Inl e \<Rightarrow> (Inl e, w) | Inr c' \<Rightarrow> perform env c' w)"

text \<open>The first failure of a list of results, else all the values, in order.\<close>

fun collect :: "(error + 'a) list \<Rightarrow> error + 'a list" where
  "collect [] = Inr []"
| "collect (x # xs) =
     (case x of
        Inl e \<Rightarrow> Inl e
      | Inr v \<Rightarrow> (case collect xs of Inl e \<Rightarrow> Inl e | Inr vs \<Rightarrow> Inr (v # vs)))"

text \<open>
  \<open>registration_agency\<close>: a result that is not a Python list is wrapped into one (a page
  sequence is a list already), then \<open>z['message']['agency']['label']\<close> is read from
  each element.
\<close>

definition as_list :: "body shape \<Rightarrow> body list" where
  "as_list res = (case res of Bare (One p) \<Rightarrow> [One p] | Bare (Paged ps) \<Rightarrow> map One ps | Listed bs \<Rightarrow> bs)"

definition label_of :: "body \<Rightarrow> error + string" where
  "label_of z =
     (case z of
        One p \<Rightarrow> (case agency_label p of None \<Rightarrow> Inl (KeyError ''agency'') | Some l \<Rightarrow> Inr l)
      | Paged _ \<Rightarrow> Inl TypeError)"

definition registration_agency ::
  "'s env \<Rightarrow> Crossref \<Rightarrow> string list option \<Rightarrow> kwargs \<Rightarrow> 's world \<Rightarrow> (error + string list) \<times> 's world" where
  "registration_agency env self ids kw w =
     (case check_kwargs [''query'', ''filter'', ''offset'', ''limit'', ''sample'', ''sort'',
                         ''order'', ''facet'', ''works''] kw of
        Inl e \<Rightarrow> (Inl e, w)
      | Inr _ \<Rightarrow>
          (case request env
      \<lparr>r_url = base_url self, r_path = ''/works/'', r_ids = ids, r_query = None,
       r_filter = None, r_offset = None, r_limit = None, r_sample = None,
       r_sort = None, r_order = None, r_facet = None, r_works = None,
       r_cursor = None, r_cursor_max = None, r_agency = Some True,
       r_kwargs = kw\<rparr> w of
             (Inl e, w') \<Rightarrow> (Inl e, w')
           | (Inr res, w') \<Rightarrow> (collect (map label_of (as_list res)), w')))"

text \<open>
  \<open>random_dois\<close>: \<open>sample\<close> defaults to 10; \<open>z['DOI']\<close> is read from each item of
  \<open>res['message']['items']\<close>.
\<close>

definition doi_of :: "item \<Rightarrow> error + string" where
  "doi_of z = (case map_of z ''DOI'' of None \<Rightarrow> Inl (KeyError ''DOI'') | Some d \<Rightarrow> Inr d)"

definition random_dois ::
  "'s env \<Rightarrow> Crossref \<Rightarrow> int option \<Rightarrow> kwargs \<Rightarrow> 's world \<Rightarrow> (error + string list) \<times> 's world" where
  "random_dois env self sample kw w =
     (case request env
      \<lparr>r_url = base_url self, r_path = ''/works/'', r_ids = None, r_query = None,
       r_filter = None, r_offset = None, r_limit = None, r_sample = (case sample of None \<Rightarrow> Some 10 | Some n \<Rightarrow> Some n),
       r_sort = None, r_order = None, r_facet = None, r_works = Some True,
       r_cursor = None, r_cursor_max = None, r_agency = None,
       r_kwargs = kw\<rparr> w of
        (Inl e, w') \<Rightarrow> (Inl e, w')
      | (Inr res, w') \<Rightarrow>
          (case res of
             Bare (One p) \<Rightarrow> (collect (map doi_of (items p)), w')
           | _ \<Rightarrow> (Inl TypeError, w')))"

section \<open>Concrete servers and requests\<close>

text \<open>
  Small executable servers, on which the theorems below are instantiated: one that
  answers every request with a page of 100 items and a fresh cursor token, one whose
  pages are empty although a token is present, and one that returns the token it was
  sent.  The server state counts the requests served.
\<close>

definition page100 :: "string \<Rightarrow> page" where
  "page100 nx = \<lparr>items = replicate 100 [(''DOI'', ''10.1/x'')], total_results = 100000,
                 next_cursor = Some nx, agency_label = None\<rparr>"

definition cursor_of :: "http_request \<Rightarrow> string" where
  "cursor_of rq = (case map_of (h_params rq) ''cursor'' of Some (Str c) \<Rightarrow> c | _ \<Rightarrow> [])"

definition server100 :: "nat dispatcher" where
  "server100 rq n = (Inr (page100 (cursor_of rq @ ''+'')), Suc n)"

definition get0 :: "string \<Rightarrow> http_request" where
  "get0 = with_cursor \<lparr>h_base = ''http://api.crossref.org'', h_path = ''/works/'', h_id = None,
                       h_works = False, h_agency = False, h_params = [], h_transport = []\<rparr>"

definition server_empty :: "nat dispatcher" where
  "server_empty rq n = (Inr ((page100 (cursor_of rq @ ''+''))\<lparr>items := []\<rparr>), Suc n)"

definition server_stalled :: "nat dispatcher" where
  "server_stalled rq n = (Inr (page100 (cursor_of rq)), Suc n)"

definition world0 :: "nat world" where
  "world0 = \<lparr>srv = 0, sent = []\<rparr>"

section \<open>Notions used to state the claims\<close>

text \<open>The cursor and the cap a call hands to the request flow.\<close>

definition call_cursor :: "call \<Rightarrow> string option" where
  "call_cursor c = (case c of Via_request a \<Rightarrow> r_cursor a | Via_Request R \<Rightarrow> R_cursor R)"

definition call_cursor_max :: "call \<Rightarrow> int option" where
  "call_cursor_max c = (case c of Via_request a \<Rightarrow> r_cursor_max a | Via_Request R \<Rightarrow> R_cursor_max R)"


text \<open>
  The seven resource operations, the call each makes, and the names each hands to
  \<open>check_kwargs\<close>.
\<close>

datatype operation = Works | Members | Prefixes | Funders | Journals | Types | Licenses

definition resource_call :: "operation \<Rightarrow> Crossref \<Rightarrow> params \<Rightarrow> error + call" where
  "resource_call op self p =
     (case op of
        Works \<Rightarrow> Inr (works self p)
      | Members \<Rightarrow> Inr (members self p)
      | Prefixes \<Rightarrow> prefixes self p
      | Funders \<Rightarrow> Inr (funders self p)
      | Journals \<Rightarrow> Inr (journals self p)
      | Types \<Rightarrow> Inr (types self p)
      | Licenses \<Rightarrow> licenses self p)"


definition agency_refused :: "string list" where
  "agency_refused = [''query'', ''filter'', ''offset'', ''limit'', ''sample'', ''sort'',
                     ''order'', ''facet'', ''works'']"

text \<open>
  A supplied name is unrecognized when the operation refuses it by name, or when it is
  neither a field query \<open>query_<field>\<close> nor a transport pass-through key.
\<close>

definition unrecognized :: "string list \<Rightarrow> string list \<Rightarrow> string \<Rightarrow> bool" where
  "unrecognized tk refused n = (n \<in> set refused \<or> (\<not> is_field_query n \<and> n \<notin> set tk))"

text \<open>
  The records of a page sequence, and the results in which every page sequence had
  accumulated fewer than \<open>cap\<close> records when its last page was requested.
\<close>

definition records :: "page list \<Rightarrow> int" where
  "records ps = sum_list (map count_items ps)"

definition body_within :: "int \<Rightarrow> body \<Rightarrow> bool" where
  "body_within cap b = (case b of One p \<Rightarrow> True | Paged ps \<Rightarrow> records (butlast ps) < cap)"

definition within_cap :: "int \<Rightarrow> body shape \<Rightarrow> bool" where
  "within_cap cap res = (case res of Bare b \<Rightarrow> body_within cap b | Listed bs \<Rightarrow> list_all (body_within cap) bs)"

text \<open>
  The responses a server gives to a sequence of requests, in order, and its state
  afterwards; the outcomes of a state-passing call run over a list, and the final state.
\<close>

fun serve :: "'s dispatcher \<Rightarrow> http_request list \<Rightarrow> 's \<Rightarrow> (error + page) list \<times> 's" where
  "serve d [] s = ([], s)"
| "serve d (rq # rqs) s =
     (case d rq s of (r, s') \<Rightarrow> (case serve d rqs s' of (rs, s'') \<Rightarrow> (r # rs, s'')))"

fun outcomes :: "('i \<Rightarrow> 'w \<Rightarrow> (error + 'r) \<times> 'w) \<Rightarrow> 'i list \<Rightarrow> 'w \<Rightarrow> (error + 'r) list" where
  "outcomes f [] w = []"
| "outcomes f (i # rest) w = fst (f i w) # outcomes f rest (snd (f i w))"

definition state_after :: "('i \<Rightarrow> 'w \<Rightarrow> (error + 'r) \<times> 'w) \<Rightarrow> 'i list \<Rightarrow> 'w \<Rightarrow> 'w" where
  "state_after f ids w = fold (\<lambda>i w. snd (f i w)) ids w"

text \<open>
  The request of an agency lookup for one identifier, and the request of a random
  sample of \<open>n\<close> works: neither carries a query, filter, sort or cursor parameter of the
  fixed set; field queries and transport options the caller passed travel along.
\<close>

definition agency_request :: "'s env \<Rightarrow> Crossref \<Rightarrow> kwargs \<Rightarrow> string \<Rightarrow> http_request" where
  "agency_request env self kw i =
     \<lparr>h_base = base_url self, h_path = ''/works/'', h_id = Some i, h_works = False,
      h_agency = True, h_params = field_params kw,
      h_transport = filter (\<lambda>(n, v). n \<in> set (transport_keys env)) kw\<rparr>"

definition sample_request :: "'s env \<Rightarrow> Crossref \<Rightarrow> int \<Rightarrow> kwargs \<Rightarrow> http_request" where
  "sample_request env self n kw =
     \<lparr>h_base = base_url self, h_path = ''/works/'', h_id = None, h_works = True,
      h_agency = False, h_params = field_params kw @ [(''sample'', Num n)],
      h_transport = filter (\<lambda>(n, v). n \<in> set (transport_keys env)) kw\<rparr>"

text \<open>A response that is a page with an agency label, and that label.\<close>

definition has_label :: "error + page \<Rightarrow> bool" where
  "has_label x = (case x of Inl e \<Rightarrow> False | Inr p \<Rightarrow> agency_label p \<noteq> None)"

definition label_in :: "error + page \<Rightarrow> string" where
  "label_in x = the (agency_label (projr x))"

section \<open>Concrete clients and calls\<close>


definition client_plain :: Crossref where
  "client_plain = init None None"

definition params0 :: params where
  "params0 = \<lparr>p_ids = None, p_query = None, p_filter = None, p_offset = None, p_limit = None,
              p_sample = None, p_sort = None, p_order = None, p_facet = None, p_works = None,
              p_cursor = None, p_cursor_max = None, p_kwargs = []\<rparr>"



text \<open>
  An environment for the concrete calls: three transport keys, a Filter Registry that
  knows no filter, and the server of 100-item pages.
\<close>

definition no_filters :: "kwargs \<Rightarrow> error + string" where
  "no_filters f = (case f of [] \<Rightarrow> Inr [] | (n, v) # _ \<Rightarrow> Inl (UnknownFilterError n))"


definition env_stalled :: "nat env" where
  "env_stalled = \<lparr>transport_keys = [''timeout'', ''headers'', ''proxies''],
                 filter_handler = no_filters, dispatch = server_stalled\<rparr>"

definition params_star :: params where
  "params_star = params0\<lparr>p_query := Some ''ecology'', p_cursor := Some ''*''\<rparr>"

text \<open>A per-identifier call that returns the identifier it was given and counts its invocations.\<close>

definition echo_call :: "string option \<Rightarrow> nat \<Rightarrow> (error + string) \<times> nat" where
  "echo_call i n = (Inr (case i of None \<Rightarrow> ''all'' | Some x \<Rightarrow> x), Suc n)"




text \<open>
  A server of agency lookups, whose label names the identifier asked for, and a server
  of a two-item page.
\<close>

definition server_agency :: "nat dispatcher" where
  "server_agency rq n =
     (Inr \<lparr>items = [], total_results = 0, next_cursor = None,
           agency_label = (if h_agency rq
                           then Some (''agency of '' @ (case h_id rq of None \<Rightarrow> [] | Some i \<Rightarrow> i))
                           else None)\<rparr>, Suc n)"

definition env_agency :: "nat env" where
  "env_agency = \<lparr>transport_keys = [''timeout'', ''headers'', ''proxies''],
                filter_handler = no_filters, dispatch = server_agency\<rparr>"

definition server_sample :: "nat dispatcher" where
  "server_sample rq n =
     (Inr \<lparr>items = [[(''DOI'', ''10.1/a'')], [(''type'', ''journal-article''), (''DOI'', ''10.1/b'')]],
           total_results = 2, next_cursor = None, agency_label = None\<rparr>, Suc n)"

definition env_sample :: "nat env" where
  "env_sample = \<lparr>transport_keys = [''timeout'', ''headers'', ''proxies''],
                filter_handler = no_filters, dispatch = server_sample\<rparr>"

section \<open>The pager, step by step\<close>

lemma fetching_fail:
  "d (mk cur) (srv w) = (Inl e, s') \<Longrightarrow>
   fetching d mk cap cur fetched pages w = (Inl e, \<lparr>srv = s', sent = sent w @ [mk cur]\<rparr>)"
  by (subst fetching.simps) (simp add: fetch_def)

lemma fetching_empty:
  "d (mk cur) (srv w) = (Inr p, s') \<Longrightarrow> items p = [] \<Longrightarrow>
   fetching d mk cap cur fetched pages w = (Inr pages, \<lparr>srv = s', sent = sent w @ [mk cur]\<rparr>)"
  by (subst fetching.simps) (simp add: fetch_def count_items_def)

lemma fetching_cap:
  "d (mk cur) (srv w) = (Inr p, s') \<Longrightarrow> items p \<noteq> [] \<Longrightarrow> cap \<le> fetched + count_items p \<Longrightarrow>
   fetching d mk cap cur fetched pages w = (Inr (pages @ [p]), \<lparr>srv = s', sent = sent w @ [mk cur]\<rparr>)"
  by (subst fetching.simps) (simp add: fetch_def count_items_def)

lemma fetching_stalled:
  "d (mk cur) (srv w) = (Inr p, s') \<Longrightarrow> items p \<noteq> [] \<Longrightarrow>
   next_cursor p = None \<or> next_cursor p = Some cur \<Longrightarrow>
   fetching d mk cap cur fetched pages w = (Inr (pages @ [p]), \<lparr>srv = s', sent = sent w @ [mk cur]\<rparr>)"
  by (subst fetching.simps) (auto simp add: fetch_def count_items_def)

lemma fetching_more:
  "d (mk cur) (srv w) = (Inr p, s') \<Longrightarrow> items p \<noteq> [] \<Longrightarrow> \<not> cap \<le> fetched + count_items p \<Longrightarrow>
   next_cursor p = Some nx \<Longrightarrow> nx \<noteq> cur \<Longrightarrow>
   fetching d mk cap cur fetched pages w =
     fetching d mk cap nx (fetched + count_items p) (pages @ [p]) \<lparr>srv = s', sent = sent w @ [mk cur]\<rparr>"
  by (subst fetching.simps) (simp add: fetch_def count_items_def)

lemma fetching_bound:
  "length (sent (snd (fetching d mk cap cur fetched pages w)))
     \<le> length (sent w) + nat (max 1 (cap - fetched))"
proof (induction d mk cap cur fetched pages w rule: fetching.induct)
  case (1 d mk cap cur fetched pages w)
  obtain r s' where r: "d (mk cur) (srv w) = (r, s')" by (cases "d (mk cur) (srv w)")
  let ?w' = "\<lparr>srv = s', sent = sent w @ [mk cur]\<rparr>"
  have f: "fetch d (mk cur) w = (r, ?w')" by (simp add: fetch_def r)
  show ?case
  proof (cases r)
    case (Inl e)
    then show ?thesis using r by (simp add: fetching_fail)
  next
    case (Inr p)
    show ?thesis
    proof (cases "items p = []")
      case True
      then show ?thesis using r Inr by (simp add: fetching_empty)
    next
      case ne: False
      show ?thesis
      proof (cases "cap \<le> fetched + count_items p")
        case True
        then show ?thesis using r Inr ne by (simp add: fetching_cap)
      next
        case nc: False
        show ?thesis
        proof (cases "next_cursor p = None \<or> next_cursor p = Some cur")
          case True
          then show ?thesis using r Inr ne by (simp add: fetching_stalled)
        next
          case False
          then obtain nx where nx: "next_cursor p = Some nx" "nx \<noteq> cur" by auto
          have cnt: "count_items p \<noteq> 0" using ne by (simp add: count_items_def)
          have pos: "0 < count_items p" using ne by (simp add: count_items_def)
          have ih: "length (sent (snd (fetching d mk cap nx (fetched + count_items p) (pages @ [p]) ?w')))
                  \<le> length (sent ?w') + nat (max 1 (cap - (fetched + count_items p)))"
            using "1.IH"[OF f[symmetric] _ cnt nc nx(1) nx(2)] Inr by simp
          have "fetching d mk cap cur fetched pages w =
                fetching d mk cap nx (fetched + count_items p) (pages @ [p]) ?w'"
            using r Inr ne nc nx by (simp add: fetching_more)
          then show ?thesis using ih pos nc by simp
        qed
      qed
    qed
  qed
qed

lemma cursor_of_get0: "cursor_of (get0 c) = c"
  by (simp add: cursor_of_def get0_def with_cursor_def)

section \<open>Every page sequence stays within the cap\<close>

lemma count_items_nonneg: "0 \<le> count_items p"
  by (simp add: count_items_def)

lemma records_snoc: "records (ps @ [p]) = records ps + count_items p"
  by (simp add: records_def)

lemma records_butlast_le: "records (butlast ps) \<le> records ps"
proof (cases ps rule: rev_cases)
  case Nil
  then show ?thesis by simp
next
  case (snoc qs q)
  then show ?thesis using count_items_nonneg[of q] by (simp add: records_snoc)
qed

lemma fetching_within_cap:
  "fetched < cap \<Longrightarrow> records pages = fetched \<Longrightarrow>
   fetching d mk cap cur fetched pages w = (Inr ps, w') \<Longrightarrow> records (butlast ps) < cap"
proof (induction d mk cap cur fetched pages w rule: fetching.induct)
  case (1 d mk cap cur fetched pages w)
  obtain r s' where r: "d (mk cur) (srv w) = (r, s')" by (cases "d (mk cur) (srv w)")
  let ?w' = "\<lparr>srv = s', sent = sent w @ [mk cur]\<rparr>"
  have f: "fetch d (mk cur) w = (r, ?w')" by (simp add: fetch_def r)
  have less: "records (butlast pages) < cap"
    using records_butlast_le[of pages] "1.prems"(1,2) by simp
  show ?case
  proof (cases r)
    case (Inl e)
    then show ?thesis using r "1.prems"(3) by (simp add: fetching_fail)
  next
    case (Inr p)
    show ?thesis
    proof (cases "items p = []")
      case True
      then show ?thesis using r Inr "1.prems"(3) less by (simp add: fetching_empty)
    next
      case ne: False
      show ?thesis
      proof (cases "cap \<le> fetched + count_items p")
        case True
        then show ?thesis using r Inr ne "1.prems" by (auto simp add: fetching_cap)
      next
        case nc: False
        show ?thesis
        proof (cases "next_cursor p = None \<or> next_cursor p = Some cur")
          case True
          then show ?thesis using r Inr ne "1.prems" by (auto simp add: fetching_stalled)
        next
          case False
          then obtain nx where nx: "next_cursor p = Some nx" "nx \<noteq> cur" by auto
          have cnt: "count_items p \<noteq> 0" using ne by (simp add: count_items_def)
          have step: "fetching d mk cap cur fetched pages w =
                fetching d mk cap nx (fetched + count_items p) (pages @ [p]) ?w'"
            using r Inr ne nc nx by (simp add: fetching_more)
          show ?thesis
            using "1.IH"[OF f[symmetric] _ cnt nc nx(1) nx(2)] Inr nc "1.prems" step
            by (simp add: records_snoc)
        qed
      qed
    qed
  qed
qed

lemma per_id_within_cap:
  assumes "0 < cap" and "r_cursor a \<noteq> None \<longrightarrow> r_cursor_max a = Some cap"
    and "per_id env a ps i w = (Inr b, w')"
  shows "body_within cap b"
proof (cases "r_cursor a")
  case None
  then show ?thesis using assms(3)
    by (auto simp add: per_id_def body_within_def split: prod.splits sum.splits)
next
  case (Some c)
  then have cm: "r_cursor_max a = Some cap" using assms(2) by simp
  obtain x w1 where x: "cursor_pager (dispatch env)
      (with_cursor (base_request (transport_keys env) a ps i)) cap c w = (x, w1)"
    by (cases "cursor_pager (dispatch env) (with_cursor (base_request (transport_keys env) a ps i)) cap c w")
  show ?thesis
  proof (cases x)
    case (Inl e)
    then show ?thesis using assms(3) Some cm x by (simp add: per_id_def)
  next
    case (Inr pages)
    then have b: "b = Paged pages" using assms(3) Some cm x by (simp add: per_id_def)
    have "records (butlast pages) < cap"
      using fetching_within_cap[of 0 cap "[]" "dispatch env"
          "with_cursor (base_request (transport_keys env) a ps i)" c w pages w1]
        assms(1) x Inr
      by (simp add: cursor_pager_def records_def)
    then show ?thesis by (simp add: b body_within_def)
  qed
qed

lemma gather_invariant:
  assumes "\<And>i w r w'. f i w = (Inr r, w') \<Longrightarrow> P r"
  shows "list_all P acc \<Longrightarrow> gather f ids acc w = (Inr rs, w') \<Longrightarrow> list_all P rs"
proof (induction ids arbitrary: acc w)
  case Nil
  then show ?case by simp
next
  case (Cons i rest)
  obtain x w1 where x: "f i w = (x, w1)" by (cases "f i w")
  show ?case
  proof (cases x)
    case (Inl e)
    then show ?thesis using Cons.prems(2) x by simp
  next
    case (Inr r)
    have "P r" using assms x Inr by simp
    then have "list_all P (acc @ [r])" using Cons.prems(1) by simp
    moreover have "gather f rest (acc @ [r]) w1 = (Inr rs, w')"
      using Cons.prems(2) x Inr by simp
    ultimately show ?thesis by (rule Cons.IH)
  qed
qed

lemma fan_out_invariant:
  assumes "\<And>i w r w'. f i w = (Inr r, w') \<Longrightarrow> P r"
    and "fan_out ids f w = (Inr res, w')"
  shows "case res of Bare r \<Rightarrow> P r | Listed rs \<Rightarrow> list_all P rs"
proof (cases "length ids \<le> 1")
  case True
  then show ?thesis using assms
    by (auto simp add: fan_out_def split: prod.splits sum.splits)
next
  case False
  obtain x w1 where x: "gather (\<lambda>i. f (Some i)) ids [] w = (x, w1)"
    by (cases "gather (\<lambda>i. f (Some i)) ids [] w")
  show ?thesis
  proof (cases x)
    case (Inl e)
    then show ?thesis using assms(2) False x by (simp add: fan_out_def)
  next
    case (Inr rs)
    have "list_all P rs"
      using gather_invariant[of "\<lambda>i. f (Some i)" P "[]" ids w rs w1] assms(1) x Inr by simp
    then show ?thesis using assms(2) False x Inr by (auto simp add: fan_out_def)
  qed
qed

lemma request_within_cap:
  assumes "0 < cap" and "r_cursor a \<noteq> None \<longrightarrow> r_cursor_max a = Some cap"
    and "request env a w = (Inr res, w')"
  shows "within_cap cap res"
proof (cases "encode (transport_keys env) (filter_handler env) a")
  case (Inl e)
  then show ?thesis using assms(3) by (simp add: request_def)
next
  case (Inr ps)
  have f: "fan_out (case r_ids a of None \<Rightarrow> [] | Some l \<Rightarrow> l) (per_id env a ps) w = (Inr res, w')"
    using assms(3) Inr by (simp add: request_def)
  have "case res of Bare r \<Rightarrow> body_within cap r | Listed rs \<Rightarrow> list_all (body_within cap) rs"
    by (rule fan_out_invariant[OF _ f]) (rule per_id_within_cap[OF assms(1,2)])
  then show ?thesis by (simp add: within_cap_def)
qed

lemma perform_within_cap:
  assumes "0 < cap" and "call_cursor c \<noteq> None \<longrightarrow> call_cursor_max c = Some cap"
    and "perform env c w = (Inr res, w')"
  shows "within_cap cap res"
proof (cases c)
  case (Via_request a)
  then show ?thesis
    using request_within_cap[of cap a env w res w'] assms
    by (simp add: perform_def call_cursor_def call_cursor_max_def)
next
  case (Via_Request R)
  have a: "r_cursor (as_args R) \<noteq> None \<longrightarrow> r_cursor_max (as_args R) = Some cap"
    using assms(2) Via_Request by (simp add: as_args_def call_cursor_def call_cursor_max_def)
  show ?thesis
    using assms(3) Via_Request per_id_within_cap[OF assms(1) a]
    by (auto simp add: perform_def do_request_def within_cap_def split: prod.splits sum.splits)
qed

lemma default_cap_forwarded:
  assumes "p_cursor_max p = None" and "resource_call op self p = Inr c"
  shows "call_cursor c \<noteq> None \<longrightarrow> call_cursor_max c = Some 5000"
  using assms
  by (cases op)
     (auto simp add: resource_call_def works_def members_def prefixes_def funders_def
        journals_def types_def licenses_def call_cursor_def call_cursor_max_def
        cursor_max_of_def split: sum.splits if_splits)

section \<open>The fan-out gathers the outcomes in order\<close>

lemma outcomes_length: "length (outcomes f ids w) = length ids"
  by (induction ids arbitrary: w) simp_all

lemma gather_outcomes:
  "list_all (\<lambda>x. \<not> isl x) (outcomes f ids w) \<Longrightarrow>
   gather f ids acc w = (Inr (acc @ map projr (outcomes f ids w)), state_after f ids w)"
proof (induction ids arbitrary: acc w)
  case Nil
  then show ?case by (simp add: state_after_def)
next
  case (Cons i rest)
  obtain x w1 where x: "f i w = (x, w1)" by (cases "f i w")
  from Cons.prems x obtain r where r: "x = Inr r" by (cases x) simp_all
  have "list_all (\<lambda>x. \<not> isl x) (outcomes f rest w1)" using Cons.prems x by simp
  then have "gather f rest (acc @ [r]) w1
      = (Inr ((acc @ [r]) @ map projr (outcomes f rest w1)), state_after f rest w1)"
    by (rule Cons.IH)
  then show ?case using x r by (simp add: state_after_def)
qed

section \<open>Validation of parameter names\<close>


lemma check_names_accepts:
  "\<forall>n \<in> fst ` set kw. is_field_query n \<or> n \<in> set tk \<Longrightarrow> check_names tk kw = Inr ()"
  by (induction kw) auto

lemma check_kwargs_rejects:
  "n \<in> set D \<Longrightarrow> n \<in> fst ` set kw \<Longrightarrow>
   \<exists>m. check_kwargs D kw = Inl (UnknownParameterError m) \<and> m \<in> set D \<and> m \<in> fst ` set kw"
  by (induction D) auto

lemma check_kwargs_accepts:
  "\<forall>n \<in> set D. n \<notin> fst ` set kw \<Longrightarrow> check_kwargs D kw = Inr ()"
  by (induction D) auto






section \<open>The request flow without a cursor\<close>

lemma serve_length: "serve d rqs s = (rs, s') \<Longrightarrow> length rs = length rqs"
  by (induction rqs arbitrary: s rs) (auto split: prod.splits)

lemma gather_served:
  assumes "r_cursor a = None"
  shows "serve (dispatch env) (map (\<lambda>i. base_request (transport_keys env) a ps (Some i)) l) (srv w)
           = (rs, s') \<Longrightarrow>
         list_all (\<lambda>x. \<not> isl x) rs \<Longrightarrow>
         gather (\<lambda>i. per_id env a ps (Some i)) l acc w
           = (Inr (acc @ map (\<lambda>x. One (projr x)) rs),
              \<lparr>srv = s', sent = sent w @ map (\<lambda>i. base_request (transport_keys env) a ps (Some i)) l\<rparr>)"
proof (induction l arbitrary: acc w rs)
  case Nil
  then show ?case by simp
next
  case (Cons i rest)
  let ?rq = "\<lambda>i. base_request (transport_keys env) a ps (Some i)"
  obtain r s1 where r: "dispatch env (?rq i) (srv w) = (r, s1)"
    by (cases "dispatch env (?rq i) (srv w)")
  obtain rs1 s2 where rs1: "serve (dispatch env) (map ?rq rest) s1 = (rs1, s2)"
    by (cases "serve (dispatch env) (map ?rq rest) s1")
  have eq: "rs = r # rs1" "s' = s2" using Cons.prems(1) r rs1 by simp_all
  then obtain pg where pg: "r = Inr pg" using Cons.prems(2) by (cases r) simp_all
  let ?w1 = "\<lparr>srv = s1, sent = sent w @ [?rq i]\<rparr>"
  have step: "per_id env a ps (Some i) w = (Inr (One pg), ?w1)"
    using assms r pg by (simp add: per_id_def fetch_def)
  have "gather (\<lambda>i. per_id env a ps (Some i)) rest (acc @ [One pg]) ?w1
      = (Inr ((acc @ [One pg]) @ map (\<lambda>x. One (projr x)) rs1),
         \<lparr>srv = s2, sent = sent ?w1 @ map ?rq rest\<rparr>)"
    using Cons.IH[of ?w1 rs1 "acc @ [One pg]"] rs1 Cons.prems(2) eq by simp
  then show ?case using step eq pg by simp
qed

lemma fan_out_served:
  assumes "r_cursor a = None" and "l \<noteq> []"
    and "serve (dispatch env) (map (\<lambda>i. base_request (transport_keys env) a ps (Some i)) l) (srv w)
           = (rs, s')"
    and "list_all (\<lambda>x. \<not> isl x) rs"
  shows "\<exists>res. fan_out l (per_id env a ps) w
           = (Inr res, \<lparr>srv = s', sent = sent w @ map (\<lambda>i. base_request (transport_keys env) a ps (Some i)) l\<rparr>)
         \<and> as_list res = map (\<lambda>x. One (projr x)) rs"
proof (cases "length l \<le> 1")
  case True
  then obtain i where l: "l = [i]" using assms(2) by (cases l) auto
  obtain r s1 where r: "dispatch env (base_request (transport_keys env) a ps (Some i)) (srv w) = (r, s1)"
    by (cases "dispatch env (base_request (transport_keys env) a ps (Some i)) (srv w)")
  have eq: "rs = [r]" "s' = s1" using assms(3) l r by simp_all
  then obtain pg where pg: "r = Inr pg" using assms(4) by (cases r) simp_all
  show ?thesis using l r eq pg assms(1)
    by (simp add: fan_out_def per_id_def fetch_def as_list_def)
next
  case False
  then show ?thesis
    using gather_served[OF assms(1,3,4), of "[]"] by (simp add: fan_out_def as_list_def)
qed

lemma collect_labels:
  "list_all has_label rs \<Longrightarrow>
   collect (map label_of (map (\<lambda>x. One (projr x)) rs)) = Inr (map label_in rs)"
proof (induction rs)
  case Nil
  then show ?case by simp
next
  case (Cons r rs)
  then show ?case
    by (cases r) (auto simp add: has_label_def label_in_def label_of_def)
qed

lemma has_label_not_isl: "list_all has_label rs \<Longrightarrow> list_all (\<lambda>x. \<not> isl x) rs"
  by (induction rs) (auto simp add: has_label_def split: sum.splits)

lemma collect_dois:
  "\<forall>z \<in> set zs. map_of z ''DOI'' \<noteq> None \<Longrightarrow>
   collect (map doi_of zs) = Inr (map (\<lambda>z. the (map_of z ''DOI'')) zs)"
  by (induction zs) (auto simp add: doi_of_def)

lemma field_params_no_cursor: "''cursor'' \<notin> fst ` set (field_params kw)"
  by (induction kw) (auto simp add: field_params_def)

section \<open>Claims about the Cursor Pager\<close>

text \<open>
  Claim C1.  Against a server that answers every request with a page of exactly 100 items
  and a next-cursor token different from the cursor it was sent, a cap of 250 yields
  exactly three pages: the three responses of the server, in fetch order and unchanged,
  after exactly three requests.  The third page, which takes the total to 300, is kept.
\<close>

theorem cursor_cap_250_yields_three_pages:
  assumes srv: "\<And>c s. \<exists>p s' nx. d (mk c) s = (Inr p, s') \<and> length (items p) = 100
                          \<and> next_cursor p = Some nx \<and> nx \<noteq> c"
  shows "\<exists>p1 p2 p3 c1 c2 s1 s2 s3.
           d (mk c0) (srv w) = (Inr p1, s1) \<and> next_cursor p1 = Some c1 \<and>
           d (mk c1) s1 = (Inr p2, s2) \<and> next_cursor p2 = Some c2 \<and>
           d (mk c2) s2 = (Inr p3, s3) \<and>
           length (items p1) = 100 \<and> length (items p2) = 100 \<and> length (items p3) = 100 \<and>
           cursor_pager d mk 250 c0 w
             = (Inr [p1, p2, p3], \<lparr>srv = s3, sent = sent w @ [mk c0, mk c1, mk c2]\<rparr>)"
proof -
  obtain p1 s1 c1 where 1: "d (mk c0) (srv w) = (Inr p1, s1)" "length (items p1) = 100"
      "next_cursor p1 = Some c1" "c1 \<noteq> c0"
    using srv[of c0 "srv w"] by blast
  obtain p2 s2 c2 where 2: "d (mk c1) s1 = (Inr p2, s2)" "length (items p2) = 100"
      "next_cursor p2 = Some c2" "c2 \<noteq> c1"
    using srv[of c1 s1] by blast
  obtain p3 s3 c3 where 3: "d (mk c2) s2 = (Inr p3, s3)" "length (items p3) = 100"
      "next_cursor p3 = Some c3" "c3 \<noteq> c2"
    using srv[of c2 s2] by blast
  let ?w1 = "\<lparr>srv = s1, sent = sent w @ [mk c0]\<rparr>"
  let ?w2 = "\<lparr>srv = s2, sent = sent ?w1 @ [mk c1]\<rparr>"
  have ne: "items p1 \<noteq> []" "items p2 \<noteq> []" "items p3 \<noteq> []"
    using 1(2) 2(2) 3(2) by auto
  have n: "count_items p1 = 100" "count_items p2 = 100" "count_items p3 = 100"
    using 1(2) 2(2) 3(2) by (simp_all add: count_items_def)
  have "fetching d mk 250 c0 0 [] w = fetching d mk 250 c1 100 [p1] ?w1"
    using fetching_more[where d=d and mk=mk and cur=c0 and w=w and p=p1 and s'=s1
        and cap=250 and fetched=0 and nx=c1 and pages="[]"] 1 ne n
    by simp
  also have "\<dots> = fetching d mk 250 c2 200 [p1, p2] ?w2"
    using fetching_more[where d=d and mk=mk and cur=c1 and w="?w1" and p=p2 and s'=s2
        and cap=250 and fetched=100 and nx=c2 and pages="[p1]"] 2 ne n
    by simp
  also have "\<dots> = (Inr [p1, p2, p3], \<lparr>srv = s3, sent = sent ?w2 @ [mk c2]\<rparr>)"
    using fetching_cap[where d=d and mk=mk and cur=c2 and w="?w2" and p=p3 and s'=s3
        and cap=250 and fetched=200 and pages="[p1, p2]"] 3 ne n
    by simp
  finally have "cursor_pager d mk 250 c0 w
      = (Inr [p1, p2, p3], \<lparr>srv = s3, sent = sent w @ [mk c0, mk c1, mk c2]\<rparr>)"
    by (simp add: cursor_pager_def)
  with 1 2 3 show ?thesis by blast
qed

theorem cursor_cap_250_witness:
  "cursor_pager server100 get0 250 ''*'' world0
     = (Inr [page100 ''*+'', page100 ''*++'', page100 ''*+++''],
        \<lparr>srv = 3, sent = [get0 ''*'', get0 ''*+'', get0 ''*++'']\<rparr>)"
proof -
  have h: "\<And>c s. \<exists>p s' nx. server100 (get0 c) s = (Inr p, s') \<and> length (items p) = 100
                          \<and> next_cursor p = Some nx \<and> nx \<noteq> c"
    by (simp add: server100_def cursor_of_get0 page100_def)
  show ?thesis
    using cursor_cap_250_yields_three_pages[of server100 get0 "''*''" "world0", OF h]
    by (auto simp add: server100_def cursor_of_get0 page100_def world0_def)
qed

text \<open>
  Claim C2.  From any state of the loop, a page of zero items ends it with the pages
  accumulated so far, whatever the cap and the token; a non-empty page whose token is
  absent or equal to the cursor just used ends it as well; and for every server the
  number of requests issued is bounded by the cap (one request at least), so the loop
  cannot run forever.
\<close>

theorem cursor_pager_terminates:
  "(d (mk cur) (srv w) = (Inr p, s') \<and> items p = [] \<longrightarrow>
      fetching d mk cap cur fetched pages w
        = (Inr pages, \<lparr>srv = s', sent = sent w @ [mk cur]\<rparr>))
   \<and> (d (mk cur) (srv w) = (Inr p, s') \<and> items p \<noteq> []
        \<and> (next_cursor p = None \<or> next_cursor p = Some cur) \<longrightarrow>
      fetching d mk cap cur fetched pages w
        = (Inr (pages @ [p]), \<lparr>srv = s', sent = sent w @ [mk cur]\<rparr>))
   \<and> length (sent (snd (fetching d mk cap cur fetched pages w)))
        \<le> length (sent w) + nat (max 1 (cap - fetched))
   \<and> length (sent (snd (cursor_pager d mk cap cur w))) \<le> length (sent w) + nat (max 1 cap)"
  using fetching_bound[of d mk cap cur fetched pages w] fetching_bound[of d mk cap cur 0 "[]" w]
  by (auto simp add: fetching_empty fetching_stalled cursor_pager_def)

theorem cursor_pager_terminates_witness:
  "fetching server_empty get0 5000 ''*'' 0 [] world0
     = (Inr [], \<lparr>srv = 1, sent = [get0 ''*'']\<rparr>)
   \<and> fetching server_stalled get0 5000 ''*'' 0 [] world0
     = (Inr [page100 ''*''], \<lparr>srv = 1, sent = [get0 ''*'']\<rparr>)
   \<and> length (sent (snd (cursor_pager server_stalled get0 5000 ''*'' world0))) \<le> 5000"
  using cursor_pager_terminates[of server_empty get0 "''*''" world0
          "(page100 ''*+'')\<lparr>items := []\<rparr>" 1 5000 0 "[]"]
        cursor_pager_terminates[of server_stalled get0 "''*''" world0 "page100 ''*''" 1 5000 0 "[]"]
  by (simp add: server_empty_def server_stalled_def cursor_of_get0 page100_def world0_def)



section \<open>Claim about the Multi-ID Fan-out\<close>

text \<open>
  Claim C6.  For an identifier list of length at most one, the fan-out is exactly one
  invocation of the per-identifier call: it returns that call's result bare (or its
  failure) and leaves the state that one invocation leaves.  For a list of two or more
  identifiers whose calls all succeed, it returns the list of their results, one per
  identifier and in input order, each call running in the state its predecessor left.
\<close>

theorem fan_out_shape:
  "(length ids \<le> 1 \<longrightarrow>
      fst (fan_out ids f w)
        = map_sum id Bare (fst (f (case ids of [] \<Rightarrow> None | i # _ \<Rightarrow> Some i) w))
      \<and> snd (fan_out ids f w) = snd (f (case ids of [] \<Rightarrow> None | i # _ \<Rightarrow> Some i) w))
   \<and> (2 \<le> length ids \<and> list_all (\<lambda>x. \<not> isl x) (outcomes (\<lambda>i. f (Some i)) ids w) \<longrightarrow>
      fan_out ids f w
        = (Inr (Listed (map projr (outcomes (\<lambda>i. f (Some i)) ids w))),
           state_after (\<lambda>i. f (Some i)) ids w)
      \<and> length (map projr (outcomes (\<lambda>i. f (Some i)) ids w)) = length ids)"
proof (intro conjI impI)
  assume "length ids \<le> 1"
  then show "fst (fan_out ids f w)
        = map_sum id Bare (fst (f (case ids of [] \<Rightarrow> None | i # _ \<Rightarrow> Some i) w))"
    by (auto simp add: fan_out_def split: prod.splits sum.splits)
next
  assume "length ids \<le> 1"
  then show "snd (fan_out ids f w) = snd (f (case ids of [] \<Rightarrow> None | i # _ \<Rightarrow> Some i) w)"
    by (auto simp add: fan_out_def split: prod.splits sum.splits)
next
  assume a: "2 \<le> length ids \<and> list_all (\<lambda>x. \<not> isl x) (outcomes (\<lambda>i. f (Some i)) ids w)"
  then show "fan_out ids f w
        = (Inr (Listed (map projr (outcomes (\<lambda>i. f (Some i)) ids w))),
           state_after (\<lambda>i. f (Some i)) ids w)"
    using gather_outcomes[of "\<lambda>i. f (Some i)" ids w "[]"] by (simp add: fan_out_def)
next
  show "length (map projr (outcomes (\<lambda>i. f (Some i)) ids w)) = length ids"
    by (simp add: outcomes_length)
qed

theorem fan_out_shape_witness:
  "fan_out [''10.1/a''] echo_call 0 = (Inr (Bare ''10.1/a''), 1)
   \<and> fan_out [''10.1/a'', ''10.1/b''] echo_call 0 = (Inr (Listed [''10.1/a'', ''10.1/b'']), 2)"
proof -
  have one: "fan_out [''10.1/a''] echo_call 0 = (Inr (Bare ''10.1/a''), 1)"
    using fan_out_shape[of "[''10.1/a'']" echo_call 0]
    by (simp add: echo_call_def prod_eq_iff)
  have two: "fan_out [''10.1/a'', ''10.1/b''] echo_call 0 = (Inr (Listed [''10.1/a'', ''10.1/b'']), 2)"
    using fan_out_shape[of "[''10.1/a'', ''10.1/b'']" echo_call 0]
    by (simp add: echo_call_def state_after_def)
  show ?thesis using one two by simp
qed

section \<open>Claims about the operations of the client\<close>






text \<open>
  Claim C10.  When the caller leaves \<open>cursor_max\<close> out, \<open>members\<close>, \<open>prefixes\<close>,
  \<open>funders\<close>, \<open>journals\<close> and \<open>types\<close> forward the cap 5000, and so does \<open>works\<close> on its
  cursor-capable path (no identifiers).  Every result of any resource operation then
  stays within that cap: each page sequence had accumulated fewer than 5000 records
  when its last page was requested.
\<close>

theorem cursor_max_defaults_to_5000:
  assumes "p_cursor_max p = None"
  shows "(p_ids p = None \<longrightarrow> call_cursor_max (works self p) = Some 5000)
       \<and> call_cursor_max (members self p) = Some 5000
       \<and> (\<forall>c. prefixes self p = Inr c \<longrightarrow> call_cursor_max c = Some 5000)
       \<and> call_cursor_max (funders self p) = Some 5000
       \<and> call_cursor_max (journals self p) = Some 5000
       \<and> call_cursor_max (types self p) = Some 5000
       \<and> (\<forall>op res w'. perform_checked env (resource_call op self p) w = (Inr res, w')
             \<longrightarrow> within_cap 5000 res)"
proof -
  have fwd: "(p_ids p = None \<longrightarrow> call_cursor_max (works self p) = Some 5000)
       \<and> call_cursor_max (members self p) = Some 5000
       \<and> (\<forall>c. prefixes self p = Inr c \<longrightarrow> call_cursor_max c = Some 5000)
       \<and> call_cursor_max (funders self p) = Some 5000
       \<and> call_cursor_max (journals self p) = Some 5000
       \<and> call_cursor_max (types self p) = Some 5000"
    using assms
    by (auto simp add: works_def members_def prefixes_def funders_def journals_def types_def
          call_cursor_max_def cursor_max_of_def split: sum.splits)
  have run: "within_cap 5000 res"
    if "perform_checked env (resource_call op self p) w = (Inr res, w')" for op res w'
  proof (cases "resource_call op self p")
    case (Inl e)
    then show ?thesis using that by (simp add: perform_checked_def)
  next
    case (Inr c)
    have "perform env c w = (Inr res, w')" using that Inr by (simp add: perform_checked_def)
    then show ?thesis
      using perform_within_cap[of 5000 c env w res w'] default_cap_forwarded[OF assms Inr]
      by simp
  qed
  show ?thesis using fwd run by blast
qed

theorem cursor_max_defaults_witness:
  "p_cursor_max params_star = None
   \<and> call_cursor_max (works client_plain params_star) = Some 5000
   \<and> call_cursor_max (members client_plain params_star) = Some 5000
   \<and> map_sum id call_cursor_max (prefixes client_plain params_star) = Inr (Some 5000)
   \<and> fst (perform_checked env_stalled (resource_call Members client_plain params_star) world0)
       = Inr (Bare (Paged [page100 ''*'']))
   \<and> within_cap 5000 (Bare (Paged [page100 ''*'']))"
proof -
  have h: "p_cursor_max params_star = None" by (simp add: params_star_def params0_def)
  have i: "p_ids params_star = None" by (simp add: params_star_def params0_def)
  note t = cursor_max_defaults_to_5000[OF h, of client_plain env_stalled world0]
  have "\<exists>c. prefixes client_plain params_star = Inr c"
    by (simp add: prefixes_def params_star_def params0_def)
  then obtain c where c: "prefixes client_plain params_star = Inr c" ..
  have p: "map_sum id call_cursor_max (prefixes client_plain params_star) = Inr (Some 5000)"
    using t c by simp
  have "\<exists>w1. perform_checked env_stalled (resource_call Members client_plain params_star) world0
      = (Inr (Bare (Paged [page100 ''*''])), w1)"
    by (simp add: perform_checked_def resource_call_def members_def params_star_def params0_def
          perform_def request_def encode_def opt_def field_params_def env_stalled_def
          fan_out_def per_id_def cursor_max_of_def works_of_def cursor_pager_def
          fetching.simps fetch_def server_stalled_def cursor_of_def with_cursor_def
          base_request_def page100_def count_items_def world0_def client_plain_def init_def)
  then obtain w1 where run: "perform_checked env_stalled
      (resource_call Members client_plain params_star) world0
      = (Inr (Bare (Paged [page100 ''*''])), w1)" ..
  have f: "fst (perform_checked env_stalled (resource_call Members client_plain params_star) world0)
       = Inr (Bare (Paged [page100 ''*'']))"
    by (simp add: run)
  have all: "\<forall>op res w'. perform_checked env_stalled (resource_call op client_plain params_star) world0
             = (Inr res, w') \<longrightarrow> within_cap 5000 res"
    using t by (elim conjE)
  have w: "within_cap 5000 (Bare (Paged [page100 ''*'']))"
    by (rule all[rule_format, OF run])
  have wk: "call_cursor_max (works client_plain params_star) = Some 5000"
    using t i by (elim conjE) simp
  have mb: "call_cursor_max (members client_plain params_star) = Some 5000"
    using t by (elim conjE)
  show ?thesis using h wk mb p f w by simp
qed



text \<open>
  Claim C8.  For a non-empty identifier list and recognized pass-through names,
  \<open>registration_agency\<close> issues one agency lookup per identifier, in input order and
  with no fixed query parameter, and, when every lookup answers with a labelled page,
  returns the list of the labels, one per identifier in input order; a single
  identifier gives a one-element list.
\<close>

theorem registration_agency_lists_labels:
  assumes ids: "l \<noteq> []"
    and names: "\<forall>n \<in> fst ` set kw. \<not> unrecognized (transport_keys env) agency_refused n"
    and served: "serve (dispatch env) (map (agency_request env self kw) l) (srv w) = (rs, s')"
    and labels: "list_all has_label rs"
  shows "registration_agency env self (Some l) kw w
           = (Inr (map label_in rs),
              \<lparr>srv = s', sent = sent w @ map (agency_request env self kw) l\<rparr>)
         \<and> length (map label_in rs) = length l"
proof -
  let ?a = "\<lparr>r_url = base_url self, r_path = ''/works/'', r_ids = Some l, r_query = None,
       r_filter = None, r_offset = None, r_limit = None, r_sample = None,
       r_sort = None, r_order = None, r_facet = None, r_works = None,
       r_cursor = None, r_cursor_max = None, r_agency = Some True,
       r_kwargs = kw\<rparr>"
  have ck: "check_kwargs [''query'', ''filter'', ''offset'', ''limit'', ''sample'', ''sort'',
                         ''order'', ''facet'', ''works''] kw = Inr ()"
    using names check_kwargs_accepts[of agency_refused kw]
    by (auto simp add: unrecognized_def agency_refused_def)
  have cn: "check_names (transport_keys env) kw = Inr ()"
    using names by (intro check_names_accepts) (auto simp add: unrecognized_def)
  have enc: "encode (transport_keys env) (filter_handler env) ?a = Inr (field_params kw)"
    using cn by (simp add: encode_def opt_def)
  have rq: "(\<lambda>i. base_request (transport_keys env) ?a (field_params kw) (Some i))
      = agency_request env self kw"
    by (rule ext) (simp add: base_request_def agency_request_def)
  have c: "r_cursor ?a = None" by simp
  obtain res where res: "fan_out l (per_id env ?a (field_params kw)) w
           = (Inr res, \<lparr>srv = s', sent = sent w @ map (agency_request env self kw) l\<rparr>)"
      "as_list res = map (\<lambda>x. One (projr x)) rs"
    using fan_out_served[OF c ids, of env "field_params kw" w rs s'] served labels
      has_label_not_isl[OF labels] unfolding rq by blast
  have "registration_agency env self (Some l) kw w
           = (Inr (map label_in rs),
              \<lparr>srv = s', sent = sent w @ map (agency_request env self kw) l\<rparr>)"
    using ck enc res collect_labels[OF labels]
    by (simp add: registration_agency_def request_def)
  moreover have "length rs = length l" using serve_length[OF served] by simp
  ultimately show ?thesis by simp
qed

theorem registration_agency_witness:
  "registration_agency env_agency client_plain (Some [''10.1/a'']) [] world0
     = (Inr [''agency of 10.1/a''],
        \<lparr>srv = 1, sent = [agency_request env_agency client_plain [] ''10.1/a'']\<rparr>)
   \<and> registration_agency env_agency client_plain (Some [''10.1/a'', ''10.1/b''])
        [(''timeout'', Num 5)] world0
     = (Inr [''agency of 10.1/a'', ''agency of 10.1/b''],
        \<lparr>srv = 2, sent = [agency_request env_agency client_plain [(''timeout'', Num 5)] ''10.1/a'',
                          agency_request env_agency client_plain [(''timeout'', Num 5)] ''10.1/b'']\<rparr>)"
proof -
  let ?pg = "\<lambda>i. \<lparr>items = [], total_results = 0, next_cursor = None,
                   agency_label = Some (''agency of '' @ i)\<rparr>"
  have n1: "\<forall>n \<in> fst ` set ([] :: kwargs). \<not> unrecognized (transport_keys env_agency) agency_refused n"
    by simp
  have s1: "serve (dispatch env_agency) (map (agency_request env_agency client_plain []) [''10.1/a''])
        (srv world0) = ([Inr (?pg ''10.1/a'')], 1)"
    by (simp add: env_agency_def server_agency_def agency_request_def world0_def)
  have l1: "list_all has_label [Inr (?pg ''10.1/a'')]" by (simp add: has_label_def)
  have n2: "\<forall>n \<in> fst ` set [(''timeout'', Num 5)].
      \<not> unrecognized (transport_keys env_agency) agency_refused n"
    by (simp add: unrecognized_def agency_refused_def env_agency_def)
  have s2: "serve (dispatch env_agency)
        (map (agency_request env_agency client_plain [(''timeout'', Num 5)]) [''10.1/a'', ''10.1/b''])
        (srv world0) = ([Inr (?pg ''10.1/a''), Inr (?pg ''10.1/b'')], 2)"
    by (simp add: env_agency_def server_agency_def agency_request_def world0_def)
  have l2: "list_all has_label [Inr (?pg ''10.1/a''), Inr (?pg ''10.1/b'')]"
    by (simp add: has_label_def)
  have a: "registration_agency env_agency client_plain (Some [''10.1/a'']) [] world0
     = (Inr [''agency of 10.1/a''],
        \<lparr>srv = 1, sent = [agency_request env_agency client_plain [] ''10.1/a'']\<rparr>)"
    using registration_agency_lists_labels[OF _ n1 s1 l1]
    by (simp add: label_in_def world0_def)
  have b: "registration_agency env_agency client_plain (Some [''10.1/a'', ''10.1/b''])
        [(''timeout'', Num 5)] world0
     = (Inr [''agency of 10.1/a'', ''agency of 10.1/b''],
        \<lparr>srv = 2, sent = [agency_request env_agency client_plain [(''timeout'', Num 5)] ''10.1/a'',
                          agency_request env_agency client_plain [(''timeout'', Num 5)] ''10.1/b'']\<rparr>)"
    using registration_agency_lists_labels[OF _ n2 s2 l2]
    by (simp add: label_in_def world0_def)
  show ?thesis using a b by simp
qed

text \<open>
  Claim C9.  \<open>random_dois\<close> issues exactly one request, whose \<open>sample\<close> parameter is the
  caller's count (10 when left out) and which has no cursor parameter, and returns the
  DOIs of the items of the page received, in the order of the items.
\<close>

theorem random_dois_projects_dois:
  assumes names: "\<forall>n \<in> fst ` set kw. is_field_query n \<or> n \<in> set (transport_keys env)"
    and resp: "dispatch env (sample_request env self (case sample of None \<Rightarrow> 10 | Some n \<Rightarrow> n) kw) (srv w)
                 = (Inr pg, s')"
    and dois: "\<forall>z \<in> set (items pg). map_of z ''DOI'' \<noteq> None"
  shows "random_dois env self sample kw w
           = (Inr (map (\<lambda>z. the (map_of z ''DOI'')) (items pg)),
              \<lparr>srv = s',
               sent = sent w @ [sample_request env self (case sample of None \<Rightarrow> 10 | Some n \<Rightarrow> n) kw]\<rparr>)
         \<and> map_of (h_params (sample_request env self (case sample of None \<Rightarrow> 10 | Some n \<Rightarrow> n) kw))
              ''sample'' = Some (Num (case sample of None \<Rightarrow> 10 | Some n \<Rightarrow> n))
         \<and> ''cursor'' \<notin> fst ` set (h_params (sample_request env self
              (case sample of None \<Rightarrow> 10 | Some n \<Rightarrow> n) kw))"
proof -
  let ?n = "case sample of None \<Rightarrow> 10 | Some n \<Rightarrow> n"
  let ?a = "\<lparr>r_url = base_url self, r_path = ''/works/'', r_ids = None, r_query = None,
       r_filter = None, r_offset = None, r_limit = None, r_sample = (case sample of None \<Rightarrow> Some 10 | Some n \<Rightarrow> Some n),
       r_sort = None, r_order = None, r_facet = None, r_works = Some True,
       r_cursor = None, r_cursor_max = None, r_agency = None,
       r_kwargs = kw\<rparr>"
  have sm: "(case sample of None \<Rightarrow> Some 10 | Some n \<Rightarrow> Some n) = Some ?n"
    by (cases sample) simp_all
  have cn: "check_names (transport_keys env) kw = Inr ()"
    using names by (rule check_names_accepts)
  have enc: "encode (transport_keys env) (filter_handler env) ?a
      = Inr (field_params kw @ [(''sample'', Num ?n)])"
    using cn by (simp add: encode_def opt_def sm)
  have rq: "base_request (transport_keys env) ?a (field_params kw @ [(''sample'', Num ?n)]) None
      = sample_request env self ?n kw"
    by (simp add: base_request_def sample_request_def)
  have run: "request env ?a w
      = (Inr (Bare (One pg)), \<lparr>srv = s', sent = sent w @ [sample_request env self ?n kw]\<rparr>)"
    using enc resp rq by (simp add: request_def fan_out_def per_id_def fetch_def)
  have 1: "random_dois env self sample kw w
           = (Inr (map (\<lambda>z. the (map_of z ''DOI'')) (items pg)),
              \<lparr>srv = s', sent = sent w @ [sample_request env self ?n kw]\<rparr>)"
    using run collect_dois[OF dois] by (simp add: random_dois_def)
  have nq: "map_of (field_params kw) ''sample'' = None"
    by (induction kw) (auto simp add: field_params_def)
  have 2: "map_of (h_params (sample_request env self ?n kw)) ''sample'' = Some (Num ?n)"
    using nq by (simp add: sample_request_def map_add_def)
  have 3: "''cursor'' \<notin> fst ` set (h_params (sample_request env self ?n kw))"
    using field_params_no_cursor[of kw] by (simp add: sample_request_def)
  show ?thesis using 1 2 3 by simp
qed

theorem random_dois_witness:
  "random_dois env_sample client_plain None [] world0
     = (Inr [''10.1/a'', ''10.1/b''],
        \<lparr>srv = 1, sent = [sample_request env_sample client_plain 10 []]\<rparr>)
   \<and> random_dois env_sample client_plain (Some 2) [(''timeout'', Num 5)] world0
     = (Inr [''10.1/a'', ''10.1/b''],
        \<lparr>srv = 1, sent = [sample_request env_sample client_plain 2 [(''timeout'', Num 5)]]\<rparr>)"
proof -
  let ?pg = "\<lparr>items = [[(''DOI'', ''10.1/a'')], [(''type'', ''journal-article''), (''DOI'', ''10.1/b'')]],
           total_results = 2, next_cursor = None, agency_label = None\<rparr>"
  have n1: "\<forall>n \<in> fst ` set ([] :: kwargs). is_field_query n \<or> n \<in> set (transport_keys env_sample)"
    by simp
  have r1: "dispatch env_sample (sample_request env_sample client_plain
        (case None of None \<Rightarrow> 10 | Some n \<Rightarrow> n) []) (srv world0) = (Inr ?pg, 1)"
    by (simp add: env_sample_def server_sample_def world0_def)
  have n2: "\<forall>n \<in> fst ` set [(''timeout'', Num 5)]. is_field_query n \<or> n \<in> set (transport_keys env_sample)"
    by (simp add: env_sample_def)
  have r2: "dispatch env_sample (sample_request env_sample client_plain
        (case Some 2 of None \<Rightarrow> 10 | Some n \<Rightarrow> n) [(''timeout'', Num 5)]) (srv world0) = (Inr ?pg, 1)"
    by (simp add: env_sample_def server_sample_def world0_def)
  have d: "\<forall>z \<in> set (items ?pg). map_of z ''DOI'' \<noteq> None" by simp
  have a: "random_dois env_sample client_plain None [] world0
     = (Inr [''10.1/a'', ''10.1/b''],
        \<lparr>srv = 1, sent = [sample_request env_sample client_plain 10 []]\<rparr>)"
    using random_dois_projects_dois[OF n1 r1 d] by (simp add: world0_def)
  have b: "random_dois env_sample client_plain (Some 2) [(''timeout'', Num 5)] world0
     = (Inr [''10.1/a'', ''10.1/b''],
        \<lparr>srv = 1, sent = [sample_request env_sample client_plain 2 [(''timeout'', Num 5)]]\<rparr>)"
    using random_dois_projects_dois[OF n2 r2 d] by (simp add: world0_def)
  show ?thesis using a b by simp
qed

end
